theory Spec2Isabelle
  imports Complex_Main "HOL-Library.Multiset" "HOL-Library.Sublist"
begin

section \<open>Cards and the SM-2 scheduler (src/js/srs-algorithm.js)\<close>

text \<open>
  A card as the database creates it (\<open>createCard\<close>): the key \<open>id\<close>, and the four
  scheduling fields. JavaScript numbers are modelled as mathematical numbers: the ease
  factor and the quality are reals, counters and millisecond timestamps are integers.
  The record is extensible, so the remaining fields (front, back, images) travel in the
  \<open>more\<close> part, which \<open>{...card, ...}\<close> copies unchanged.
\<close>

record card =
  card_id :: int
  easeFactor :: real
  interval :: int
  repetitions :: int
  nextReview :: int

text \<open>\<open>Math.round\<close>: the nearest integer, a tie going up.\<close>

definition Math_round :: "real \<Rightarrow> int" where
  "Math_round x = \<lfloor>x + 1 / 2\<rfloor>"

text \<open>
  \<open>calculateNextReview(card, quality)\<close>. The function has two parameters and calls
  \<open>Date.now()\<close> once; the value that call returns is the first argument \<open>clock\<close>
  of the model.
\<close>

definition calculateNextReview :: "int \<Rightarrow> 'a card_scheme \<Rightarrow> real \<Rightarrow> 'a card_scheme" where
  "calculateNextReview clock c quality0 =
     (let quality = max 0 (min 5 quality0);
          (reps, ival) =
            (if quality < 3 then (0, 0)
             else (let reps = repetitions c + 1
                   in if reps = 1 then (reps, 1)
                      else if reps = 2 then (reps, 6)
                      else (reps, Math_round (of_int (interval c) * easeFactor c))));
          ef = easeFactor c + (0.1 - (5 - quality) * (0.08 + (5 - quality) * 0.02));
          ef = max 1.3 ef;
          nextReview' = clock + ival * 24 * 60 * 60 * 1000
      in c\<lparr>easeFactor := ef, interval := ival, repetitions := reps, nextReview := nextReview'\<rparr>)"

text \<open>
  \<open>mapSimpleRatingToQuality(simpleRating)\<close>: the object literal \<open>mapping\<close> as an
  association list, the property read \<open>mapping[simpleRating]\<close> as a lookup that is
  \<open>None\<close> for \<open>undefined\<close>, and \<open>v || 3\<close> with JavaScript's truthiness: \<open>undefined\<close>
  and the number \<open>0\<close> are both falsy.
\<close>

definition mapping :: "(int \<times> int) list" where
  "mapping = [(1, 0), (2, 3), (3, 4), (4, 5)]"

definition js_or :: "int option \<Rightarrow> int \<Rightarrow> int" where
  "js_or v d = (case v of None \<Rightarrow> d | Some n \<Rightarrow> if n = 0 then d else n)"

definition mapSimpleRatingToQuality :: "int \<Rightarrow> int" where
  "mapSimpleRatingToQuality simpleRating = js_or (map_of mapping simpleRating) 3"

section \<open>Priority, sorting and status (src/js/srs-algorithm.js)\<close>

text \<open>
  \<open>getCardPriority(card)\<close> reads \<open>Date.now()\<close>; the value read is the argument
  \<open>now\<close>. A lower score is a higher priority. The order of a sort depends on which
  scores are equal, so the rounding of the floating-point arithmetic is kept: \<open>fl\<close> is
  the rounding that every subtraction, addition, multiplication and division ends
  with, a parameter of the model.
\<close>

definition getCardPriority :: "(real \<Rightarrow> real) \<Rightarrow> int \<Rightarrow> card \<Rightarrow> real" where
  "getCardPriority fl now c =
     (let daysSinceReview = fl (fl (of_int (now - nextReview c)) / (24 * 60 * 60 * 1000));
          priority = 0;
          priority = (if daysSinceReview > 0 then fl (priority - fl (daysSinceReview * 10))
                      else fl (priority + \<bar>daysSinceReview\<bar>));
          priority = fl (priority + fl (fl (3 - easeFactor c) * 5));
          priority = fl (priority + fl (fl (10 - of_int (repetitions c)) * 0.5))
      in priority)"

text \<open>The rounding that changes nothing: arithmetic on values that need no rounding.\<close>

definition exact :: "real \<Rightarrow> real" where
  "exact x = x"

text \<open>
  \<open>Array.prototype.sort(compare)\<close>: ECMAScript requires a stable sort that puts \<open>a\<close>
  before \<open>b\<close> when \<open>compare(a, b) < 0\<close> and keeps the order of the two when it is
  \<open>0\<close>. The comparator of the source is not a pure function (it reads the clock), so
  the model counts its calls: \<open>compare k a b\<close> is the result of the call number
  \<open>k\<close>. The model is the stable insertion sort driven by the comparator; each function
  returns the number of calls made so far with its list.
\<close>

fun insert_by :: "(nat \<Rightarrow> 'a \<Rightarrow> 'a \<Rightarrow> real) \<Rightarrow> nat \<Rightarrow> 'a \<Rightarrow> 'a list \<Rightarrow> nat \<times> 'a list" where
  "insert_by compare k a [] = (k, [a])"
| "insert_by compare k a (b # bs) =
     (if compare k a b \<le> 0 then (Suc k, a # b # bs)
      else (case insert_by compare (Suc k) a bs of (k', r) \<Rightarrow> (k', b # r)))"

fun sort_from :: "(nat \<Rightarrow> 'a \<Rightarrow> 'a \<Rightarrow> real) \<Rightarrow> nat \<Rightarrow> 'a list \<Rightarrow> nat \<times> 'a list" where
  "sort_from compare k [] = (k, [])"
| "sort_from compare k (x # xs) =
     (case sort_from compare k xs of (k', ys) \<Rightarrow> insert_by compare k' x ys)"

definition Array_sort :: "(nat \<Rightarrow> 'a \<Rightarrow> 'a \<Rightarrow> real) \<Rightarrow> 'a list \<Rightarrow> 'a list" where
  "Array_sort compare xs = snd (sort_from compare 0 xs)"

text \<open>
  \<open>sortCardsByPriority(cards)\<close>. Every call of the comparator calls
  \<open>getCardPriority\<close> on \<open>a\<close> and then on \<open>b\<close>, and each of the two reads
  \<open>Date.now()\<close>: \<open>clock n\<close> is the value of the read number \<open>n\<close> during the
  sort, so the call number \<open>k\<close> of the comparator sees \<open>clock (2 * k)\<close> and
  \<open>clock (2 * k + 1)\<close>.
\<close>

definition sortCardsByPriority :: "(real \<Rightarrow> real) \<Rightarrow> (nat \<Rightarrow> int) \<Rightarrow> card list \<Rightarrow> card list" where
  "sortCardsByPriority fl clock cards =
     Array_sort
       (\<lambda>k a b. fl (getCardPriority fl (clock (2 * k)) a - getCardPriority fl (clock (2 * k + 1)) b))
       cards"

text \<open>A clock that returns the same value \<open>now\<close> at every read.\<close>

definition frozen_clock :: "int \<Rightarrow> nat \<Rightarrow> int" where
  "frozen_clock now n = now"

definition isCardDue :: "int \<Rightarrow> card \<Rightarrow> bool" where
  "isCardDue now c \<longleftrightarrow> nextReview c \<le> now"

record study_status =
  status :: string
  difficulty :: string
  mastery :: int
  isNew :: bool
  isDue :: bool
  daysSinceReview :: int
  nextReviewDate :: int

text \<open>
  \<open>getCardStudyStatus(card)\<close> reads the clock twice: \<open>now1\<close> is the value
  \<open>isCardDue\<close> reads, \<open>now2\<close> the value read for \<open>daysSinceReview\<close>.
\<close>

definition getCardStudyStatus :: "int \<Rightarrow> int \<Rightarrow> card \<Rightarrow> study_status" where
  "getCardStudyStatus now1 now2 c =
     (let isNew = (repetitions c = 0);
          isDue = isCardDue now1 c;
          daysSinceReview = \<lfloor>of_int (now2 - nextReview c) / (24 * 60 * 60 * 1000 :: real)\<rfloor>;
          status = (if isNew then ''new'' else if isDue then ''review'' else ''learning'');
          difficulty = (if easeFactor c \<ge> 2.5 then ''easy''
                        else if easeFactor c \<ge> 2.0 then ''medium'' else ''hard'');
          mastery = (if repetitions c = 0 then 0
                     else if repetitions c < 3 then 33
                     else if repetitions c < 6 then 66 else 100)
      in \<lparr>status = status, difficulty = difficulty, mastery = mastery,
          isNew = isNew, isDue = isDue,
          daysSinceReview = (if isDue then daysSinceReview else - daysSinceReview),
          nextReviewDate = nextReview c\<rparr>)"

section \<open>Shuffling (src/js/utils.js)\<close>

text \<open>
  \<open>shuffleArray(array)\<close>, Fisher-Yates. The values \<open>Math.random()\<close> returns during
  one call are \<open>rnd 0\<close>, \<open>rnd 1\<close>, ...; ECMAScript puts each of them in \<open>[0, 1)\<close>.
  The loop variable \<open>i\<close> runs from \<open>length - 1\<close> down to \<open>1\<close>; \<open>k\<close> counts the
  calls of \<open>Math.random\<close> made so far. The destructuring assignment reads both
  elements before it writes either.
\<close>

fun shuffle_loop :: "(nat \<Rightarrow> real) \<Rightarrow> nat \<Rightarrow> nat \<Rightarrow> 'a list \<Rightarrow> 'a list" where
  "shuffle_loop rnd k 0 shuffled = shuffled"
| "shuffle_loop rnd k (Suc i') shuffled =
     (let i = Suc i';
          j = nat \<lfloor>rnd k * real (i + 1)\<rfloor>
      in shuffle_loop rnd (Suc k) i' (shuffled[i := shuffled ! j, j := shuffled ! i]))"

definition shuffleArray :: "(nat \<Rightarrow> real) \<Rightarrow> 'a list \<Rightarrow> 'a list" where
  "shuffleArray rnd array = shuffle_loop rnd 0 (length array - 1) array"

text \<open>
  The same function on a store of arrays, to say which array is written: an address is
  an index of the store, \<open>[...array]\<close> allocates the next free address and the loop
  works on that copy only.
\<close>

definition shuffleArray_store :: "(nat \<Rightarrow> real) \<Rightarrow> 'a list list \<Rightarrow> nat \<Rightarrow> 'a list list \<times> nat" where
  "shuffleArray_store rnd store array =
     (let shuffled = length store;
          store1 = store @ [store ! array];
          store2 = store1[shuffled := shuffle_loop rnd 0 (length (store1 ! shuffled) - 1) (store1 ! shuffled)]
      in (store2, shuffled))"

section \<open>Test mode of the study session (StudyModesManager)\<close>

text \<open>
  The fields of \<open>StudyModesManager\<close> that test mode uses. \<open>testTargetCount\<close> is
  \<open>null\<close> (\<open>None\<close>) or the parsed \<open>count\<close> parameter. \<open>ended\<close> records that
  \<open>endSession\<close> was called.
\<close>

record manager =
  cards :: "card list"
  currentIndex :: int
  testTargetCount :: "int option"
  testCards :: "card list"
  incorrectCards :: "card list"
  correctCards :: "card list"
  cardsStudied :: int
  stats_correctCount :: int
  stats_incorrectCount :: int
  ended :: bool

text \<open>\<open>xs.slice(0, n)\<close>: a negative \<open>n\<close> counts from the end.\<close>

definition slice0 :: "'a list \<Rightarrow> int \<Rightarrow> 'a list" where
  "slice0 xs n = (if n < 0 then take (nat (int (length xs) + n)) xs else take (nat n) xs)"

text \<open>
  \<open>prepareTestCards()\<close>. \<open>fl\<close> and \<open>clock\<close> are the rounding and the clock reads
  of the sort, \<open>rnd\<close> the random values the shuffle draws.
\<close>

definition prepareTestCards ::
  "(real \<Rightarrow> real) \<Rightarrow> (nat \<Rightarrow> int) \<Rightarrow> (nat \<Rightarrow> real) \<Rightarrow> manager \<Rightarrow> manager" where
  "prepareTestCards fl clock rnd s =
     (let totalCards = int (length (cards s));
          targetCount = js_or (testTargetCount s) totalCards;
          selected = (if targetCount \<le> totalCards
                      then slice0 (sortCardsByPriority fl clock (cards s)) targetCount
                      else cards s)
      in s\<lparr>testCards := shuffleArray rnd selected\<rparr>)"

text \<open>
  The bookkeeping of \<open>checkTestAnswer()\<close> (the part after the answer was judged):
  the two lists of cards, and the counters. \<open>find\<close> returns the first card with
  the same id, or \<open>undefined\<close>.
\<close>

definition trackAnswer :: "card \<Rightarrow> bool \<Rightarrow> manager \<Rightarrow> manager" where
  "trackAnswer c correct s =
     (let s = (if correct
               then (if find (\<lambda>x. card_id x = card_id c) (correctCards s) = None
                     then s\<lparr>correctCards := correctCards s @ [c]\<rparr> else s)
               else (if find (\<lambda>x. card_id x = card_id c) (incorrectCards s) = None
                     then s\<lparr>incorrectCards := incorrectCards s @ [c]\<rparr> else s));
          s = s\<lparr>cardsStudied := cardsStudied s + 1\<rparr>
      in if correct then s\<lparr>stats_correctCount := stats_correctCount s + 1\<rparr>
         else s\<lparr>stats_incorrectCount := stats_incorrectCount s + 1\<rparr>)"

text \<open>
  \<open>checkTestAnswer()\<close> with the judged answer \<open>correct\<close> as its input. The current
  card is \<open>testCards[currentIndex]\<close>; when that is \<open>undefined\<close> the handler throws
  on \<open>card.id\<close> before it changes anything, which is the result \<open>None\<close>.
\<close>

definition checkTestAnswer :: "bool \<Rightarrow> manager \<Rightarrow> manager option" where
  "checkTestAnswer correct s =
     (if 0 \<le> currentIndex s \<and> currentIndex s < int (length (testCards s))
      then Some (trackAnswer (testCards s ! nat (currentIndex s)) correct s)
      else None)"

text \<open>
  One loop of \<open>selectAdditionalCards\<close>:
  \<open>for (let i = 0; i < n && src.length > 0; i++) acc.push(src[i % src.length])\<close>.
\<close>

function push_cyclic :: "nat \<Rightarrow> int \<Rightarrow> 'a list \<Rightarrow> 'a list \<Rightarrow> 'a list" where
  "push_cyclic i n src acc =
     (if int i < n \<and> length src > 0
      then push_cyclic (i + 1) n src (acc @ [src ! (i mod length src)])
      else acc)"
  by pat_completeness auto
termination
  by (relation "measure (\<lambda>(i, n, src, acc). nat (n - int i))") auto

declare push_cyclic.simps [simp del]

text \<open>
  \<open>selectAdditionalCards(count)\<close> before the final shuffle: the contents of
  \<open>additionalCards\<close>. The parameter \<open>count\<close> is written \<open>cnt\<close>.
\<close>

definition additionalCards :: "manager \<Rightarrow> int \<Rightarrow> card list" where
  "additionalCards s cnt =
     (let incorrectWeight = 3;
          correctWeight = 1;
          totalWeight = incorrectWeight + correctWeight;
          incorrectCount = \<lceil>of_int (cnt * incorrectWeight) / (of_int totalWeight :: real)\<rceil>;
          correctCount = cnt - incorrectCount;
          acc = push_cyclic 0 incorrectCount (incorrectCards s) [];
          acc = push_cyclic 0 correctCount (correctCards s) acc
      in if int (length acc) < cnt
         then (let remaining = cnt - int (length acc)
               in push_cyclic 0 remaining (cards s) acc)
         else acc)"

definition selectAdditionalCards :: "(nat \<Rightarrow> real) \<Rightarrow> manager \<Rightarrow> int \<Rightarrow> card list" where
  "selectAdditionalCards rnd s cnt = shuffleArray rnd (additionalCards s cnt)"

text \<open>\<open>nextTestQuestion()\<close>; \<open>rnd\<close> feeds the shuffle of a replenishment.\<close>

definition nextTestQuestion :: "(nat \<Rightarrow> real) \<Rightarrow> manager \<Rightarrow> manager" where
  "nextTestQuestion rnd s =
     (let targetCount = js_or (testTargetCount s) (int (length (testCards s)))
      in if currentIndex s < int (length (testCards s)) - 1
         then s\<lparr>currentIndex := currentIndex s + 1\<rparr>
         else if int (length (testCards s)) < targetCount
         then (let cardsNeeded = targetCount - int (length (testCards s));
                   newCards = selectAdditionalCards rnd s cardsNeeded
               in if length newCards > 0
                  then s\<lparr>testCards := testCards s @ newCards, currentIndex := currentIndex s + 1\<rparr>
                  else s\<lparr>ended := True\<rparr>)
         else s\<lparr>ended := True\<rparr>)"

section \<open>Set statistics (database wrapper, getSetStatistics)\<close>

text \<open>
  A stored session: \<open>endTime\<close> is \<open>null\<close> until \<open>endSession\<close> sets it; the counts
  may be missing in a stored record, which \<open>|| 0\<close> covers.
\<close>

record session =
  startTime :: int
  endTime :: "int option"
  correctCount :: "int option"
  incorrectCount :: "int option"

text \<open>
  JavaScript's \<open>/\<close> never throws: a zero divisor gives \<open>NaN\<close> or an infinity, which
  the model reports as \<open>None\<close>.
\<close>

definition js_div :: "real \<Rightarrow> real \<Rightarrow> real option" where
  "js_div a b = (if b = 0 then None else Some (a / b))"

text \<open>The loop over the sessions: the running totals (correct, incorrect, time).\<close>

fun session_totals :: "session list \<Rightarrow> int \<times> int \<times> int \<Rightarrow> int \<times> int \<times> int" where
  "session_totals [] tot = tot"
| "session_totals (x # xs) (totalCorrect, totalIncorrect, totalTime) =
     (case endTime x of
        None \<Rightarrow> session_totals xs (totalCorrect, totalIncorrect, totalTime)
      | Some e \<Rightarrow>
          if e = 0 then session_totals xs (totalCorrect, totalIncorrect, totalTime)
          else session_totals xs
                 (totalCorrect + js_or (correctCount x) 0,
                  totalIncorrect + js_or (incorrectCount x) 0,
                  totalTime + (e - startTime x)))"

record set_statistics =
  totalCards :: nat
  totalSessions :: nat
  totalTime :: int
  accuracy :: "real option"
  masteryLevel :: "real option"
  totalCorrect :: int
  totalIncorrect :: int

text \<open>
  \<open>getSetStatistics(setId)\<close>, as a function of the cards and sessions the database
  returns for the set.
\<close>

definition getSetStatistics :: "card list \<Rightarrow> session list \<Rightarrow> set_statistics" where
  "getSetStatistics cs sessions =
     (let (totalCorrect, totalIncorrect, totalTime) = session_totals sessions (0, 0, 0);
          totalAttempts = totalCorrect + totalIncorrect;
          accuracy = (if totalAttempts > 0
                      then map_option (\<lambda>q. q * 100) (js_div (of_int totalCorrect) (of_int totalAttempts))
                      else Some 0);
          masteredCards = length (filter (\<lambda>c. easeFactor c > 2.5 \<and> interval c \<ge> 1) cs);
          masteryLevel = (if length cs > 0
                          then map_option (\<lambda>q. q * 100) (js_div (real masteredCards) (real (length cs)))
                          else Some 0)
      in \<lparr>totalCards = length cs, totalSessions = length sessions, totalTime = totalTime,
          accuracy = accuracy, masteryLevel = masteryLevel,
          totalCorrect = totalCorrect, totalIncorrect = totalIncorrect\<rparr>)"

section \<open>Sessions as sequences of events\<close>

text \<open>
  \<open>startTestMode\<close> registers two handlers: the submit button runs
  \<open>checkTestAnswer\<close>, the next button runs \<open>nextTestQuestion\<close>. An event is one
  click: a submitted answer with its verdict, or a step to the next question with the
  random values a replenishment would draw. A handler that throws leaves the state as
  it was.
\<close>

datatype event = Answer bool | Next "nat \<Rightarrow> real"

fun handle_event :: "manager \<Rightarrow> event \<Rightarrow> manager" where
  "handle_event s (Answer correct) =
     (case checkTestAnswer correct s of None \<Rightarrow> s | Some s' \<Rightarrow> s')"
| "handle_event s (Next rnd) = nextTestQuestion rnd s"

definition run_session :: "manager \<Rightarrow> event list \<Rightarrow> manager" where
  "run_session s es = foldl handle_event s es"

text \<open>A test session over a set with the single card \<open>c\<close>, asked for two questions.\<close>

definition one_card_session :: "card \<Rightarrow> manager" where
  "one_card_session c =
     \<lparr>cards = [c], currentIndex = 0, testTargetCount = Some 2, testCards = [c],
      incorrectCards = [], correctCards = [], cardsStudied = 0,
      stats_correctCount = 0, stats_incorrectCount = 0, ended = False\<rparr>"

text \<open>
  A set of three new cards and a test of five questions: the state before
  \<open>prepareTestCards\<close>, the clicks that answer the three cards correctly, and the state
  they lead to when the clock reads \<open>0\<close> and every random value is \<open>0\<close>
  (\<open>random_zero\<close>).
\<close>

definition random_zero :: "nat \<Rightarrow> real" where
  "random_zero k = 0"

definition new_card :: "int \<Rightarrow> card" where
  "new_card i = \<lparr>card_id = i, easeFactor = 2.5, interval = 0, repetitions = 0, nextReview = 0\<rparr>"

definition scenario_D_start :: manager where
  "scenario_D_start =
     \<lparr>cards = [new_card 1, new_card 2, new_card 3], currentIndex = 0, testTargetCount = Some 5,
      testCards = [], incorrectCards = [], correctCards = [], cardsStudied = 0,
      stats_correctCount = 0, stats_incorrectCount = 0, ended = False\<rparr>"

definition scenario_D_events :: "event list" where
  "scenario_D_events =
     [Answer True, Next random_zero, Answer True, Next random_zero, Answer True]"

definition scenario_D :: manager where
  "scenario_D = run_session (prepareTestCards exact (frozen_clock 0) random_zero scenario_D_start) scenario_D_events"

text \<open>The same session with the first answer wrong.\<close>

definition scenario_mixed :: manager where
  "scenario_mixed =
     run_session (prepareTestCards exact (frozen_clock 0) random_zero scenario_D_start)
       [Answer False, Next random_zero, Answer True, Next random_zero, Answer True]"

text \<open>
  A set of three new cards and a test of seven questions, with all three cards answered
  wrongly.
\<close>

definition scenario_all_wrong :: manager where
  "scenario_all_wrong =
     run_session
       (prepareTestCards exact (frozen_clock 0) random_zero (scenario_D_start\<lparr>testTargetCount := Some 7\<rparr>))
       [Answer False, Next random_zero, Answer False, Next random_zero, Answer False]"

text \<open>
  Two practised cards for the sort: \<open>card_A\<close> comes due after half a day, \<open>card_B\<close>
  after two days. At the clock values \<open>0\<close> and \<open>86400000\<close> their time
  differences are whole numbers of half days, and every later number in their scores is
  a multiple of \<open>1/2\<close> of magnitude at most \<open>10\<close>: floating-point arithmetic
  computes all of them without rounding.
\<close>

definition card_A :: card where
  "card_A = \<lparr>card_id = 1, easeFactor = 2.5, interval = 1, repetitions = 1, nextReview = 43200000\<rparr>"

definition card_B :: card where
  "card_B = \<lparr>card_id = 2, easeFactor = 3, interval = 1, repetitions = 1, nextReview = 172800000\<rparr>"

section \<open>The loops of the replenishment in closed form\<close>

text \<open>
  What one loop of \<open>selectAdditionalCards\<close> appends: \<open>n\<close> items taken cyclically from
  the list \<open>src\<close>, from its start, repeating it when it is shorter than \<open>n\<close>; nothing
  when the list is empty.
\<close>

definition cyclic_draw :: "int \<Rightarrow> 'a list \<Rightarrow> 'a list" where
  "cyclic_draw n src =
     (if src = [] then [] else map (\<lambda>i. src ! (i mod length src)) [0..<nat n])"

section \<open>The replenishment rule in the words of the specification\<close>

text \<open>
  The specification's two sets are sets of item ids, without an order. Its rule for a
  batch of ids, read without any order: the batch splits into \<open>ceil(deficit * 3/4)\<close>
  ids that are members of \<open>answeredIncorrectly\<close> and the remaining
  \<open>deficit - ceil(deficit * 3/4)\<close> ids that are members of \<open>answeredCorrectly\<close>.
\<close>

definition spec_batch :: "int \<Rightarrow> 'a set \<Rightarrow> 'a set \<Rightarrow> 'a list \<Rightarrow> bool" where
  "spec_batch deficit answeredIncorrectly answeredCorrectly batch \<longleftrightarrow>
     (\<exists>xs ys. mset batch = mset xs + mset ys
        \<and> int (length xs) = \<lceil>of_int deficit * 3 / (4 :: real)\<rceil>
        \<and> set xs \<subseteq> answeredIncorrectly
        \<and> int (length ys) = deficit - \<lceil>of_int deficit * 3 / (4 :: real)\<rceil>
        \<and> set ys \<subseteq> answeredCorrectly)"

section \<open>The scheduler\<close>

text \<open>What \<open>calculateNextReview\<close> writes into each of the four scheduling fields.\<close>

lemma calculateNextReview_fields:
  "repetitions (calculateNextReview clock c q) =
     (if max 0 (min 5 q) < 3 then 0 else repetitions c + 1)"
  "interval (calculateNextReview clock c q) =
     (if max 0 (min 5 q) < 3 then 0
      else if repetitions c + 1 = 1 then 1
      else if repetitions c + 1 = 2 then 6
      else Math_round (of_int (interval c) * easeFactor c))"
  "easeFactor (calculateNextReview clock c q) =
     max 1.3 (easeFactor c + (0.1 - (5 - max 0 (min 5 q)) * (0.08 + (5 - max 0 (min 5 q)) * 0.02)))"
  "nextReview (calculateNextReview clock c q) =
     clock + interval (calculateNextReview clock c q) * 24 * 60 * 60 * 1000"
  by (auto simp add: calculateNextReview_def Let_def split: prod.splits)

text \<open>
  The simplified ratings: only \<open>3\<close> and \<open>4\<close> avoid the default, because the entry
  \<open>1: 0\<close> is falsy and \<open>|| 3\<close> replaces it.
\<close>

lemma mapSimpleRatingToQuality_cases:
  "mapSimpleRatingToQuality r = (if r = 3 then 4 else if r = 4 then 5 else 3)"
  by (simp add: mapSimpleRatingToQuality_def mapping_def js_or_def)

text \<open>
  Claim C1 says that the simplified rating \<open>1\<close> maps to quality \<open>0\<close>, as the comment
  in the source does (\<open>1 (Again) -> 0 (complete blackout)\<close>). The code returns \<open>3\<close>
  for the rating \<open>1\<close>: the table holds \<open>0\<close>, which \<open>|| 3\<close> treats as missing.
\<close>

theorem mapSimpleRatingToQuality_again: "mapSimpleRatingToQuality 1 = 3"
  by (simp add: mapSimpleRatingToQuality_def mapping_def js_or_def)

text \<open>
  Claim C3, as stated, gives ease factor \<open>1.3\<close> for the card
  \<open>{easeFactor: 2.0, interval: 6, repetitions: 2}\<close> rated \<open>1\<close>. The code does not
  return \<open>1.3\<close> there.
\<close>

theorem ease_after_failure_counterexample:
  "easeFactor (calculateNextReview 0
      \<lparr>card_id = 1, easeFactor = 2.0, interval = 6, repetitions = 2, nextReview = 0\<rparr> 1) \<noteq> 1.3"
  by (simp add: calculateNextReview_def Let_def)

text \<open>
  Claim C3, amended: for the card \<open>{easeFactor: 2.0, interval: 6, repetitions: 2}\<close>
  and quality \<open>1\<close> the scheduler returns repetitions \<open>0\<close>, interval \<open>0\<close> and ease
  factor \<open>max(1.3, 2.0 - 0.54) = 1.46\<close>: the change of the ease factor at quality \<open>1\<close> is
  \<open>0.1 - 4 * (0.08 + 4 * 0.02) = -0.54\<close>.
\<close>

theorem failure_resets_schedule:
  "repetitions (calculateNextReview clock (c\<lparr>easeFactor := 2.0, interval := 6, repetitions := 2\<rparr>) 1) = 0
   \<and> interval (calculateNextReview clock (c\<lparr>easeFactor := 2.0, interval := 6, repetitions := 2\<rparr>) 1) = 0
   \<and> easeFactor (calculateNextReview clock (c\<lparr>easeFactor := 2.0, interval := 6, repetitions := 2\<rparr>) 1)
       = max 1.3 (2.0 - 0.54)
   \<and> max 1.3 (2.0 - 0.54) = (1.46 :: real)"
  by (simp add: calculateNextReview_def Let_def)

text \<open>
  Claim C4, as stated, makes the result a function of the arguments alone. The code's
  arguments are the card and the quality; two calls with the same card and quality, made
  at different clock values, return different cards.
\<close>

theorem same_arguments_counterexample:
  "calculateNextReview 0 \<lparr>card_id = 1, easeFactor = 2.5, interval = 0, repetitions = 0, nextReview = 0\<rparr> 4
   \<noteq> calculateNextReview 1 \<lparr>card_id = 1, easeFactor = 2.5, interval = 0, repetitions = 0, nextReview = 0\<rparr> 4"
  by (simp add: calculateNextReview_def Let_def)

text \<open>
  Claim C4, amended: the scheduler reads the clock once; its result is determined by the
  card, the quality and the clock value read. The returned \<open>nextReview\<close> is that clock
  value plus the new interval times 86,400,000 ms, and no other field depends on the
  clock.
\<close>

theorem nextReview_from_clock:
  "nextReview (calculateNextReview clock c q) =
     clock + interval (calculateNextReview clock c q) * 86400000
   \<and> calculateNextReview clock' c q =
     (calculateNextReview clock c q)
       \<lparr>nextReview := clock' + interval (calculateNextReview clock c q) * 86400000\<rparr>"
  by (simp add: calculateNextReview_def Let_def split: prod.splits)

text \<open>
  Claim C7: for every card and every quality, with \<open>q\<close> the quality clamped to
  \<open>[0, 5]\<close>, the returned ease factor is
  \<open>max(1.3, easeFactor + (0.1 - (5 - q) * (0.08 + (5 - q) * 0.02)))\<close>, and so it is at
  least \<open>1.3\<close>.
\<close>

theorem easeFactor_floor:
  "easeFactor (calculateNextReview clock c q) =
     max 1.3 (easeFactor c + (0.1 - (5 - max 0 (min 5 q)) * (0.08 + (5 - max 0 (min 5 q)) * 0.02)))
   \<and> 1.3 \<le> easeFactor (calculateNextReview clock c q)"
proof -
  let ?d = "5 - max 0 (min 5 q)"
  have eq: "easeFactor (calculateNextReview clock c q) =
      max 1.3 (easeFactor c + (0.1 - ?d * (0.08 + ?d * 0.02)))"
    by (rule calculateNextReview_fields(3))
  have "(1.3 :: real) \<le> max 1.3 (easeFactor c + (0.1 - ?d * (0.08 + ?d * 0.02)))"
    by (rule max.cobounded1)
  with eq show ?thesis by simp
qed

section \<open>The status of a card\<close>

text \<open>
  Claim C2, as stated, names the status of a practised card whose review time has come
  \<open>due\<close>. For such a card the code's status is not that string.
\<close>

theorem status_label_counterexample:
  "repetitions \<lparr>card_id = 1, easeFactor = 2.5, interval = 1, repetitions = 1, nextReview = 0\<rparr> \<noteq> 0
   \<and> nextReview \<lparr>card_id = 1, easeFactor = 2.5, interval = 1, repetitions = 1, nextReview = 0\<rparr> \<le> 0
   \<and> status (getCardStudyStatus 0 0
         \<lparr>card_id = 1, easeFactor = 2.5, interval = 1, repetitions = 1, nextReview = 0\<rparr>) \<noteq> ''due''"
  by (simp add: getCardStudyStatus_def isCardDue_def)

text \<open>
  Claim C2, amended: the status is \<open>new\<close> when repetitions is \<open>0\<close>; otherwise it is
  \<open>review\<close> when \<open>nextReview\<close> is at most the clock value, and \<open>learning\<close>
  otherwise. A card with repetitions \<open>0\<close> has status \<open>new\<close> and mastery \<open>0\<close>
  whatever its other fields hold.
\<close>

theorem getCardStudyStatus_labels:
  "status (getCardStudyStatus now1 now2 c) =
     (if repetitions c = 0 then ''new'' else if nextReview c \<le> now1 then ''review'' else ''learning'')
   \<and> status (getCardStudyStatus now1 now2 (c\<lparr>repetitions := 0\<rparr>)) = ''new''
   \<and> mastery (getCardStudyStatus now1 now2 (c\<lparr>repetitions := 0\<rparr>)) = 0"
  by (simp add: getCardStudyStatus_def isCardDue_def Let_def)

section \<open>Set statistics\<close>

lemma getSetStatistics_accuracy:
  "accuracy (getSetStatistics cs ss) =
     Some (if totalCorrect (getSetStatistics cs ss) + totalIncorrect (getSetStatistics cs ss) > 0
           then of_int (totalCorrect (getSetStatistics cs ss))
                / of_int (totalCorrect (getSetStatistics cs ss) + totalIncorrect (getSetStatistics cs ss)) * 100
           else 0)"
  by (simp add: getSetStatistics_def js_div_def Let_def split: prod.splits)

lemma getSetStatistics_masteryLevel:
  "masteryLevel (getSetStatistics cs ss) =
     Some (if cs = [] then 0
           else real (length (filter (\<lambda>c. easeFactor c > 2.5 \<and> interval c \<ge> 1) cs))
                / real (length cs) * 100)"
  by (simp add: getSetStatistics_def js_div_def Let_def split: prod.splits)

text \<open>
  Claim C9, as stated, gives mastery level \<open>0\<close> for every list of cards when there are
  no sessions. A set with one imported card of ease factor \<open>2.6\<close> and interval \<open>1\<close>
  and no sessions has mastery level \<open>100\<close>.
\<close>

theorem masteryLevel_counterexample:
  "masteryLevel (getSetStatistics
      [\<lparr>card_id = 1, easeFactor = 2.6, interval = 1, repetitions = 2, nextReview = 0\<rparr>] []) = Some 100
   \<and> masteryLevel (getSetStatistics
      [\<lparr>card_id = 1, easeFactor = 2.6, interval = 1, repetitions = 2, nextReview = 0\<rparr>] []) \<noteq> Some 0"
  by (simp add: getSetStatistics_def js_div_def)

text \<open>
  Claim C9, amended: the accuracy is \<open>correct / (correct + incorrect) * 100\<close>, and \<open>0\<close>
  when there are no attempts; it is never the result of a division by zero, and with no
  sessions it is \<open>0\<close>. The mastery level does not depend on the sessions: it is the
  share of cards with ease factor above \<open>2.5\<close> and interval at least \<open>1\<close>, times
  \<open>100\<close>, and \<open>0\<close> for an empty list of cards; it is never the result of a division
  by zero either.
\<close>

theorem getSetStatistics_total:
  "accuracy (getSetStatistics cs ss) =
     Some (if totalCorrect (getSetStatistics cs ss) + totalIncorrect (getSetStatistics cs ss) > 0
           then of_int (totalCorrect (getSetStatistics cs ss))
                / of_int (totalCorrect (getSetStatistics cs ss) + totalIncorrect (getSetStatistics cs ss)) * 100
           else 0)
   \<and> accuracy (getSetStatistics cs []) = Some 0
   \<and> masteryLevel (getSetStatistics cs ss) =
     Some (if cs = [] then 0
           else real (length (filter (\<lambda>c. easeFactor c > 2.5 \<and> interval c \<ge> 1) cs))
                / real (length cs) * 100)
   \<and> masteryLevel (getSetStatistics [] ss) = Some 0"
proof -
  have "accuracy (getSetStatistics cs []) = Some 0"
    by (simp add: getSetStatistics_def)
  moreover have "masteryLevel (getSetStatistics [] ss) = Some 0"
    by (simp add: getSetStatistics_masteryLevel)
  ultimately show ?thesis
    using getSetStatistics_accuracy [of cs ss] getSetStatistics_masteryLevel [of cs ss]
    by blast
qed

section \<open>Sorting by priority\<close>

text \<open>
  A comparator whose sign at every call agrees with the order of a key \<open>f\<close> makes
  the comparator-driven insertion the insertion by that key, and \<open>Array_sort\<close> the
  library's stable \<open>sort_key\<close>.
\<close>

lemma insert_by_insort_key:
  assumes "\<forall>k a b. (compare k a b \<le> 0) = (f a \<le> f b)"
  shows "snd (insert_by compare k x ys) = insort_key f x ys"
proof (induction ys arbitrary: k)
  case Nil
  show ?case by simp
next
  case (Cons y ys)
  obtain k' r where r: "insert_by compare (Suc k) x ys = (k', r)"
    by (cases "insert_by compare (Suc k) x ys")
  with Cons.IH [of "Suc k"] have "r = insort_key f x ys" by simp
  with r assms show ?case by simp
qed

lemma sort_from_sort_key:
  assumes "\<forall>k a b. (compare k a b \<le> 0) = (f a \<le> f b)"
  shows "snd (sort_from compare k xs) = sort_key f xs"
proof (induction xs arbitrary: k)
  case Nil
  show ?case by simp
next
  case (Cons x xs)
  obtain k' ys where r: "sort_from compare k xs = (k', ys)"
    by (cases "sort_from compare k xs")
  with Cons.IH [of k] have "ys = sort_key f xs" by simp
  with r show ?case
    by (simp add: insert_by_insort_key [OF assms])
qed

text \<open>The last operation of \<open>getCardPriority\<close> is an addition, so a score is rounded.\<close>

lemma getCardPriority_rounded: "\<exists>z. getCardPriority fl now c = fl z"
  unfolding getCardPriority_def Let_def by (rule exI) (rule refl)

text \<open>
  With a frozen clock, and a rounding under which the difference of two rounded numbers
  has the sign of their order, the sort is the stable sort by the score at that clock
  value.
\<close>

lemma sortCardsByPriority_sort_key:
  assumes "\<forall>x y. (fl (fl x - fl y) \<le> 0) = (fl x \<le> fl y)"
  shows "sortCardsByPriority fl (frozen_clock now) cs = sort_key (getCardPriority fl now) cs"
proof -
  have "(fl (getCardPriority fl now a - getCardPriority fl now b) \<le> 0)
      = (getCardPriority fl now a \<le> getCardPriority fl now b)" for a b
  proof -
    obtain za where za: "getCardPriority fl now a = fl za"
      using getCardPriority_rounded by blast
    obtain zb where zb: "getCardPriority fl now b = fl zb"
      using getCardPriority_rounded by blast
    show ?thesis using assms by (simp add: za zb)
  qed
  then have "\<forall>k a b.
      (fl (getCardPriority fl (frozen_clock now (2 * k)) a
           - getCardPriority fl (frozen_clock now (2 * k + 1)) b) \<le> 0)
      = (getCardPriority fl now a \<le> getCardPriority fl now b)"
    by (simp add: frozen_clock_def)
  from sort_from_sort_key [OF this] show ?thesis
    by (simp add: sortCardsByPriority_def Array_sort_def)
qed

text \<open>
  Claim C5, as stated, makes a second sort of a sorted list return the same sequence.
  The comparator reads the clock: \<open>card_A\<close> and \<open>card_B\<close>, sorted when the clock
  reads \<open>0\<close>, come out as \<open>card_B, card_A\<close> (scores \<open>6.5\<close> and \<open>7.5\<close>); sorting
  that list again a day later returns \<open>card_A, card_B\<close> (scores \<open>2\<close> and \<open>5.5\<close>).
\<close>

theorem resort_next_day_counterexample:
  "sortCardsByPriority exact (frozen_clock 0) [card_A, card_B] = [card_B, card_A]
   \<and> sortCardsByPriority exact (frozen_clock 86400000)
        (sortCardsByPriority exact (frozen_clock 0) [card_A, card_B]) = [card_A, card_B]
   \<and> sortCardsByPriority exact (frozen_clock 86400000)
        (sortCardsByPriority exact (frozen_clock 0) [card_A, card_B])
       \<noteq> sortCardsByPriority exact (frozen_clock 0) [card_A, card_B]"
proof -
  have a: "sortCardsByPriority exact (frozen_clock 0) [card_A, card_B] = [card_B, card_A]"
    by (simp add: sortCardsByPriority_def Array_sort_def getCardPriority_def exact_def
        frozen_clock_def card_A_def card_B_def)
  have b: "sortCardsByPriority exact (frozen_clock 86400000) [card_B, card_A] = [card_A, card_B]"
    by (simp add: sortCardsByPriority_def Array_sort_def getCardPriority_def exact_def
        frozen_clock_def card_A_def card_B_def)
  have c: "[card_A, card_B] \<noteq> [card_B, card_A]"
    by (simp add: card_A_def card_B_def)
  from a b c show ?thesis by simp
qed

text \<open>
  Claim C5, amended: \<open>sortCardsByPriority\<close> reads the clock in every comparison. When
  every read during a sort returns the same value \<open>now\<close> (and the floating-point
  difference of two scores has the sign of their order), it returns a permutation of its
  input in ascending order of the priority scores taken at \<open>now\<close>; the cards of any one
  score \<open>k\<close> keep their relative order; sorting the result again at the same clock value
  changes nothing; and a list that is already in ascending order of the scores at
  \<open>now\<close> is returned as it is.
\<close>

theorem sortCardsByPriority_stable:
  assumes "\<forall>x y. (fl (fl x - fl y) \<le> 0) = (fl x \<le> fl y)"
  shows "mset (sortCardsByPriority fl (frozen_clock now) cs) = mset cs
   \<and> sorted (map (getCardPriority fl now) (sortCardsByPriority fl (frozen_clock now) cs))
   \<and> filter (\<lambda>c. getCardPriority fl now c = k) (sortCardsByPriority fl (frozen_clock now) cs)
       = filter (\<lambda>c. getCardPriority fl now c = k) cs
   \<and> sortCardsByPriority fl (frozen_clock now) (sortCardsByPriority fl (frozen_clock now) cs)
       = sortCardsByPriority fl (frozen_clock now) cs
   \<and> (sorted (map (getCardPriority fl now) cs) \<longrightarrow>
        sortCardsByPriority fl (frozen_clock now) cs = cs)"
proof -
  let ?f = "getCardPriority fl now"
  have perm: "mset (sort_key ?f cs) = mset cs" by simp
  have srt: "sorted (map ?f (sort_key ?f cs))" by (rule sorted_sort_key)
  have stab: "filter (\<lambda>c. ?f c = k) (sort_key ?f cs) = filter (\<lambda>c. ?f c = k) cs"
    by (rule sort_key_stable)
  have fixed: "sorted (map ?f ys) \<Longrightarrow> sort_key ?f ys = ys" for ys
    by (rule sort_key_id_if_sorted)
  have idem: "sort_key ?f (sort_key ?f cs) = sort_key ?f cs"
    by (rule fixed [OF srt])
  from perm srt stab idem fixed [of cs] show ?thesis
    by (simp only: sortCardsByPriority_sort_key [OF assms]) blast
qed

text \<open>
  Exact arithmetic has the sign property. At the clock value \<open>0\<close> the list
  \<open>card_B, card_A, card_A\<close> is in ascending order of the scores, the last two being
  equal: the sort returns it unchanged.
\<close>

theorem sortCardsByPriority_stable_witness:
  "(\<forall>x y. (exact (exact x - exact y) \<le> 0) = (exact x \<le> exact y))
   \<and> sorted (map (getCardPriority exact 0) [card_B, card_A, card_A\<lparr>card_id := 3\<rparr>])
   \<and> sortCardsByPriority exact (frozen_clock 0) [card_B, card_A, card_A\<lparr>card_id := 3\<rparr>]
       = [card_B, card_A, card_A\<lparr>card_id := 3\<rparr>]"
proof -
  have sign: "\<forall>x y. (exact (exact x - exact y) \<le> 0) = (exact x \<le> exact y)"
    by (simp add: exact_def)
  have srt: "sorted (map (getCardPriority exact 0) [card_B, card_A, card_A\<lparr>card_id := 3\<rparr>])"
    by (simp add: getCardPriority_def exact_def card_A_def card_B_def)
  from sortCardsByPriority_stable [OF sign, of 0 "[card_B, card_A, card_A\<lparr>card_id := 3\<rparr>]"] sign srt
  show ?thesis by blast
qed

section \<open>Shuffling\<close>

text \<open>A random value in \<open>[0, 1)\<close> gives an index \<open>j\<close> with \<open>j \<le> i\<close>.\<close>

lemma random_index_le:
  assumes "0 \<le> r" "r < 1"
  shows "nat \<lfloor>r * real (Suc i)\<rfloor> \<le> i"
proof -
  have "r * real (Suc i) < real (Suc i)"
    using assms by simp
  then have "\<lfloor>r * real (Suc i)\<rfloor> < int (Suc i)"
    by (simp add: floor_less_iff)
  then show ?thesis by simp
qed

text \<open>Every round of the loop swaps two elements that exist.\<close>

lemma shuffle_loop_perm:
  assumes "\<forall>k. 0 \<le> rnd k \<and> rnd k < 1" "i < length xs"
  shows "mset (shuffle_loop rnd k i xs) = mset xs \<and> length (shuffle_loop rnd k i xs) = length xs"
  using assms(2)
proof (induction i arbitrary: k xs)
  case 0
  then show ?case by simp
next
  case (Suc i)
  let ?j = "nat \<lfloor>rnd k * real (Suc i + 1)\<rfloor>"
  let ?ys = "xs[Suc i := xs ! ?j, ?j := xs ! Suc i]"
  have j: "?j \<le> Suc i"
    using assms(1) random_index_le [of "rnd k" "Suc i"] by simp
  with Suc.prems have jlen: "?j < length xs" by simp
  have "mset ?ys = mset xs"
    using mset_swap [OF jlen Suc.prems] .
  moreover have "length ?ys = length xs" by simp
  moreover have "i < length ?ys" using Suc.prems by simp
  ultimately show ?case
    using Suc.IH [of ?ys "Suc k"] by (simp add: Let_def)
qed

lemma shuffleArray_perm:
  assumes "\<forall>k. 0 \<le> rnd k \<and> rnd k < 1"
  shows "mset (shuffleArray rnd xs) = mset xs" "length (shuffleArray rnd xs) = length xs"
proof -
  show "mset (shuffleArray rnd xs) = mset xs"
  proof (cases xs)
    case Nil
    then show ?thesis by (simp add: shuffleArray_def)
  next
    case (Cons a as)
    then have "length xs - 1 < length xs" by simp
    from shuffle_loop_perm [OF assms this] show ?thesis by (simp add: shuffleArray_def)
  qed
  then have "size (mset (shuffleArray rnd xs)) = size (mset xs)" by simp
  then show "length (shuffleArray rnd xs) = length xs" by simp
qed

text \<open>
  Claim C10: when \<open>Math.random\<close> returns values in \<open>[0, 1)\<close>, \<open>shuffleArray\<close>
  returns an array at a fresh address (the store grows by that one array), leaves every
  array of the old store, the input among them, as it was, and the returned array is a
  permutation of the input of the same length. So the test cards chosen by
  \<open>prepareTestCards\<close> and the batch built by \<open>selectAdditionalCards\<close> hold, after
  their shuffles, exactly the selected cards with their multiplicities.
\<close>

theorem shuffleArray_fresh_permutation:
  assumes "\<forall>k. 0 \<le> rnd k \<and> rnd k < 1" and "array < length store"
  shows "snd (shuffleArray_store rnd store array) = length store
   \<and> length (fst (shuffleArray_store rnd store array)) = length store + 1
   \<and> take (length store) (fst (shuffleArray_store rnd store array)) = store
   \<and> fst (shuffleArray_store rnd store array) ! array = store ! array
   \<and> fst (shuffleArray_store rnd store array) ! snd (shuffleArray_store rnd store array)
       = shuffleArray rnd (store ! array)
   \<and> mset (shuffleArray rnd (store ! array)) = mset (store ! array)
   \<and> length (shuffleArray rnd (store ! array)) = length (store ! array)
   \<and> mset (testCards (prepareTestCards fl clock rnd s))
       = mset (if js_or (testTargetCount s) (int (length (cards s))) \<le> int (length (cards s))
               then slice0 (sortCardsByPriority fl clock (cards s))
                      (js_or (testTargetCount s) (int (length (cards s))))
               else cards s)
   \<and> mset (selectAdditionalCards rnd s n) = mset (additionalCards s n)"
proof -
  have store: "fst (shuffleArray_store rnd store array) = store @ [shuffleArray rnd (store ! array)]"
    by (simp add: shuffleArray_store_def shuffleArray_def Let_def)
  have addr: "snd (shuffleArray_store rnd store array) = length store"
    by (simp add: shuffleArray_store_def Let_def)
  have old: "(store @ [shuffleArray rnd (store ! array)]) ! array = store ! array"
    using assms(2) by (simp add: nth_append)
  have init: "mset (testCards (prepareTestCards fl clock rnd s))
       = mset (if js_or (testTargetCount s) (int (length (cards s))) \<le> int (length (cards s))
               then slice0 (sortCardsByPriority fl clock (cards s))
                      (js_or (testTargetCount s) (int (length (cards s))))
               else cards s)"
    by (simp add: prepareTestCards_def Let_def shuffleArray_perm(1) [OF assms(1)])
  have repl: "mset (selectAdditionalCards rnd s n) = mset (additionalCards s n)"
    by (simp add: selectAdditionalCards_def shuffleArray_perm(1) [OF assms(1)])
  show ?thesis
    using old init repl shuffleArray_perm [OF assms(1), of "store ! array"]
    by (simp add: store addr)
qed

text \<open>
  With every random value \<open>1/2\<close>, the array \<open>[1, 2, 3, 4, 5]\<close> at address \<open>0\<close> is
  shuffled into \<open>[1, 4, 2, 5, 3]\<close> at the new address \<open>1\<close>.
\<close>

theorem shuffleArray_fresh_permutation_witness:
  "(\<forall>k::nat. (0::real) \<le> 1 / 2 \<and> (1 / 2 :: real) < 1)
   \<and> (0::nat) < length [[1, 2, 3, 4, 5 :: int]]
   \<and> shuffleArray_store (\<lambda>k. 1 / 2) [[1, 2, 3, 4, 5 :: int]] 0
       = ([[1, 2, 3, 4, 5], [1, 4, 2, 5, 3]], 1)
   \<and> mset (shuffleArray (\<lambda>k. 1 / 2) [1, 2, 3, 4, 5 :: int]) = mset [1, 2, 3, 4, 5]"
  using shuffleArray_fresh_permutation [of "\<lambda>k. 1 / 2" 0 "[[1, 2, 3, 4, 5 :: int]]"]
  by (simp add: shuffleArray_store_def Let_def eval_nat_numeral)

section \<open>The answered lists of a test session\<close>

lemma trackAnswer_lists:
  "correctCards (trackAnswer c correct s) =
     (if correct \<and> find (\<lambda>x. card_id x = card_id c) (correctCards s) = None
      then correctCards s @ [c] else correctCards s)"
  "incorrectCards (trackAnswer c correct s) =
     (if \<not> correct \<and> find (\<lambda>x. card_id x = card_id c) (incorrectCards s) = None
      then incorrectCards s @ [c] else incorrectCards s)"
  by (simp_all add: trackAnswer_def Let_def)

lemma find_None_card_id:
  "find (\<lambda>x. card_id x = i) xs = None \<longleftrightarrow> i \<notin> card_id ` set xs"
  by (auto simp: find_None_iff)

lemma nextTestQuestion_lists:
  "correctCards (nextTestQuestion rnd s) = correctCards s"
  "incorrectCards (nextTestQuestion rnd s) = incorrectCards s"
  by (simp_all add: nextTestQuestion_def Let_def)

text \<open>One event extends each list at its end, by a card whose id is new to it.\<close>

lemma handle_event_correctCards:
  "prefix (correctCards s) (correctCards (handle_event s e))"
  "distinct (map card_id (correctCards s)) \<Longrightarrow> distinct (map card_id (correctCards (handle_event s e)))"
  by (cases e; simp add: checkTestAnswer_def trackAnswer_lists nextTestQuestion_lists find_None_card_id)+

lemma handle_event_incorrectCards:
  "prefix (incorrectCards s) (incorrectCards (handle_event s e))"
  "distinct (map card_id (incorrectCards s)) \<Longrightarrow> distinct (map card_id (incorrectCards (handle_event s e)))"
  by (cases e; simp add: checkTestAnswer_def trackAnswer_lists nextTestQuestion_lists find_None_card_id)+

lemma run_session_Cons:
  "run_session s (e # es) = run_session (handle_event s e) es"
  by (simp add: run_session_def)

lemma run_session_correct_prefix:
  "prefix (correctCards s) (correctCards (run_session s es))"
proof (induction es arbitrary: s)
  case Nil
  show ?case by (simp add: run_session_def)
next
  case (Cons e es)
  have "prefix (correctCards s) (correctCards (handle_event s e))"
    by (rule handle_event_correctCards(1))
  also have "prefix \<dots> (correctCards (run_session (handle_event s e) es))"
    by (rule Cons.IH)
  finally show ?case by (simp add: run_session_Cons)
qed

lemma run_session_incorrect_prefix:
  "prefix (incorrectCards s) (incorrectCards (run_session s es))"
proof (induction es arbitrary: s)
  case Nil
  show ?case by (simp add: run_session_def)
next
  case (Cons e es)
  have "prefix (incorrectCards s) (incorrectCards (handle_event s e))"
    by (rule handle_event_incorrectCards(1))
  also have "prefix \<dots> (incorrectCards (run_session (handle_event s e) es))"
    by (rule Cons.IH)
  finally show ?case by (simp add: run_session_Cons)
qed

lemma run_session_correct_distinct:
  "distinct (map card_id (correctCards s)) \<Longrightarrow>
   distinct (map card_id (correctCards (run_session s es)))"
proof (induction es arbitrary: s)
  case Nil
  then show ?case by (simp add: run_session_def)
next
  case (Cons e es)
  from Cons.prems have "distinct (map card_id (correctCards (handle_event s e)))"
    by (rule handle_event_correctCards(2))
  then show ?case by (simp add: run_session_Cons Cons.IH)
qed

lemma run_session_incorrect_distinct:
  "distinct (map card_id (incorrectCards s)) \<Longrightarrow>
   distinct (map card_id (incorrectCards (run_session s es)))"
proof (induction es arbitrary: s)
  case Nil
  then show ?case by (simp add: run_session_def)
next
  case (Cons e es)
  from Cons.prems have "distinct (map card_id (incorrectCards (handle_event s e)))"
    by (rule handle_event_incorrectCards(2))
  then show ?case by (simp add: run_session_Cons Cons.IH)
qed

section \<open>The loops of the replenishment\<close>

text \<open>The loop appends the cyclic draw that starts at its counter.\<close>

lemma push_cyclic_from:
  "push_cyclic i n src acc =
     acc @ (if src = [] then [] else map (\<lambda>k. src ! (k mod length src)) [i..<nat n])"
proof (induction i n src acc rule: push_cyclic.induct)
  case (1 i n src acc)
  show ?case
  proof (cases "int i < n \<and> length src > 0")
    case True
    then have "i < nat n" by (simp add: zless_nat_eq_int_zless)
    then have "[i..<nat n] = i # [i + 1..<nat n]"
      by (simp add: upt_conv_Cons)
    with True "1.IH" show ?thesis
      by (subst push_cyclic.simps) simp
  next
    case False
    then have "src = [] \<or> nat n \<le> i" by auto
    with False show ?thesis
      by (subst push_cyclic.simps) auto
  qed
qed

lemma push_cyclic_draw: "push_cyclic 0 n src acc = acc @ cyclic_draw n src"
  by (simp add: push_cyclic_from cyclic_draw_def)

lemma cyclic_draw_nonpos: "n \<le> 0 \<Longrightarrow> cyclic_draw n src = []"
  by (simp add: cyclic_draw_def)

lemma length_cyclic_draw:
  "length (cyclic_draw n src) = (if src = [] then 0 else nat n)"
  by (simp add: cyclic_draw_def)

text \<open>
  The three loops of \<open>selectAdditionalCards\<close>: the quota of the wrongly answered cards,
  the quota of the correctly answered ones, and whatever is still missing from the
  whole set.
\<close>

lemma additionalCards_draws:
  "additionalCards s d =
     cyclic_draw \<lceil>of_int (d * 3) / (4 :: real)\<rceil> (incorrectCards s)
     @ cyclic_draw (d - \<lceil>of_int (d * 3) / (4 :: real)\<rceil>) (correctCards s)
     @ cyclic_draw
         (d - int (length (cyclic_draw \<lceil>of_int (d * 3) / (4 :: real)\<rceil> (incorrectCards s)
                           @ cyclic_draw (d - \<lceil>of_int (d * 3) / (4 :: real)\<rceil>) (correctCards s))))
         (cards s)"
  by (simp add: additionalCards_def Let_def push_cyclic_draw cyclic_draw_nonpos)

text \<open>
  A set of one card and a test of two questions: the card is answered correctly, is
  drawn again by the replenishment, and is then answered wrongly.
\<close>

lemma one_card_session_both:
  "correctCards (run_session (one_card_session c) [Answer True, Next rnd, Answer False]) = [c]
   \<and> incorrectCards (run_session (one_card_session c) [Answer True, Next rnd, Answer False]) = [c]"
proof -
  define s1 where "s1 = (one_card_session c)\<lparr>correctCards := [c], cardsStudied := 1, stats_correctCount := 1\<rparr>"
  define s2 where "s2 = s1\<lparr>testCards := [c, c], currentIndex := 1\<rparr>"
  have e1: "handle_event (one_card_session c) (Answer True) = s1"
    by (simp add: s1_def one_card_session_def checkTestAnswer_def trackAnswer_def)
  have add: "additionalCards s1 1 = [c]"
    by (simp add: s1_def additionalCards_draws one_card_session_def cyclic_draw_def)
  have sel: "selectAdditionalCards rnd s1 1 = [c]"
    by (simp add: selectAdditionalCards_def add shuffleArray_def)
  have e2: "handle_event s1 (Next rnd) = s2"
    using sel by (simp add: nextTestQuestion_def js_or_def s2_def)
      (simp add: s1_def one_card_session_def Let_def)
  have e3: "correctCards (handle_event s2 (Answer False)) = [c]
      \<and> incorrectCards (handle_event s2 (Answer False)) = [c]"
    by (simp add: s2_def s1_def one_card_session_def checkTestAnswer_def trackAnswer_def)
  have "run_session (one_card_session c) [Answer True, Next rnd, Answer False]
      = handle_event s2 (Answer False)"
    by (simp only: run_session_def foldl.simps e1 e2)
  with e3 show ?thesis by simp
qed

text \<open>
  Claim C8: start a stretch of a test session in any state whose two lists hold each id
  at most once, and let any sequence of answers and steps follow. Each list after the
  sequence begins with the list before it, so no recorded card (and no recorded id) is
  ever removed; each list still holds every id at most once; and in the session over one
  card \<open>c\<close> with two questions, a correct answer followed by a wrong one leaves \<open>c\<close>
  in both lists at once.
\<close>

theorem answered_sets_additive:
  assumes "distinct (map card_id (correctCards s))"
      and "distinct (map card_id (incorrectCards s))"
  shows "prefix (correctCards s) (correctCards (run_session s es))
   \<and> prefix (incorrectCards s) (incorrectCards (run_session s es))
   \<and> card_id ` set (correctCards s) \<subseteq> card_id ` set (correctCards (run_session s es))
   \<and> card_id ` set (incorrectCards s) \<subseteq> card_id ` set (incorrectCards (run_session s es))
   \<and> distinct (map card_id (correctCards (run_session s es)))
   \<and> distinct (map card_id (incorrectCards (run_session s es)))
   \<and> correctCards (run_session (one_card_session c) [Answer True, Next rnd, Answer False]) = [c]
   \<and> incorrectCards (run_session (one_card_session c) [Answer True, Next rnd, Answer False]) = [c]"
proof -
  have p1: "prefix (correctCards s) (correctCards (run_session s es))"
    by (rule run_session_correct_prefix)
  have p2: "prefix (incorrectCards s) (incorrectCards (run_session s es))"
    by (rule run_session_incorrect_prefix)
  from p1 have m1: "card_id ` set (correctCards s) \<subseteq> card_id ` set (correctCards (run_session s es))"
    by (intro image_mono set_mono_prefix)
  from p2 have m2: "card_id ` set (incorrectCards s) \<subseteq> card_id ` set (incorrectCards (run_session s es))"
    by (intro image_mono set_mono_prefix)
  have d1: "distinct (map card_id (correctCards (run_session s es)))"
    using assms(1) by (rule run_session_correct_distinct)
  have d2: "distinct (map card_id (incorrectCards (run_session s es)))"
    using assms(2) by (rule run_session_incorrect_distinct)
  from p1 p2 m1 m2 d1 d2 one_card_session_both [of c rnd] show ?thesis
    by blast
qed

text \<open>
  The session over three cards that answers all of them correctly, from the state
  \<open>prepareTestCards\<close> leaves: the lists start empty and end with three distinct ids in
  \<open>correctCards\<close>.
\<close>

theorem answered_sets_additive_witness:
  "distinct (map card_id (correctCards (prepareTestCards exact (frozen_clock 0) random_zero scenario_D_start)))
   \<and> distinct (map card_id (incorrectCards (prepareTestCards exact (frozen_clock 0) random_zero scenario_D_start)))
   \<and> distinct (map card_id (correctCards scenario_D))
   \<and> distinct (map card_id (incorrectCards scenario_D))
   \<and> map card_id (correctCards scenario_D) = [2, 3, 1]"
proof -
  have h1: "distinct (map card_id (correctCards (prepareTestCards exact (frozen_clock 0) random_zero scenario_D_start)))"
    by (simp add: prepareTestCards_def scenario_D_start_def Let_def)
  have h2: "distinct (map card_id (incorrectCards (prepareTestCards exact (frozen_clock 0) random_zero scenario_D_start)))"
    by (simp add: prepareTestCards_def scenario_D_start_def Let_def)
  have ids: "map card_id (correctCards scenario_D) = [2, 3, 1]"
    by code_simp
  from answered_sets_additive [OF h1 h2, of scenario_D_events] h1 h2 ids show ?thesis
    by (simp add: scenario_D_def)
qed

section \<open>Replenishment\<close>

text \<open>For a deficit \<open>d \<ge> 0\<close> the quota \<open>ceil(d * 3/4)\<close> lies between \<open>0\<close> and \<open>d\<close>.\<close>

lemma ceiling_three_quarters:
  assumes "0 \<le> d"
  shows "0 \<le> \<lceil>of_int (d * 3) / (4 :: real)\<rceil>" "\<lceil>of_int (d * 3) / (4 :: real)\<rceil> \<le> d"
proof -
  have "0 \<le> of_int (d * 3) / (4 :: real)" using assms by simp
  then show "0 \<le> \<lceil>of_int (d * 3) / (4 :: real)\<rceil>" by linarith
  have "of_int (d * 3) / (4 :: real) \<le> of_int d" using assms by simp
  then show "\<lceil>of_int (d * 3) / (4 :: real)\<rceil> \<le> d" by (simp add: ceiling_le_iff)
qed

lemma set_cyclic_draw: "set (cyclic_draw n src) \<subseteq> set src"
  by (auto simp: cyclic_draw_def)

text \<open>
  When both lists are non-empty the two quotas fill the deficit and the third loop adds
  nothing.
\<close>

lemma additionalCards_both_nonempty:
  assumes "incorrectCards s \<noteq> []" "correctCards s \<noteq> []" "0 \<le> d"
  shows "additionalCards s d =
     cyclic_draw \<lceil>of_int (d * 3) / (4 :: real)\<rceil> (incorrectCards s)
     @ cyclic_draw (d - \<lceil>of_int (d * 3) / (4 :: real)\<rceil>) (correctCards s)"
proof -
  let ?ic = "\<lceil>of_int (d * 3) / (4 :: real)\<rceil>"
  note b = ceiling_three_quarters [OF assms(3)]
  have len1: "int (length (cyclic_draw ?ic (incorrectCards s))) = ?ic"
    using assms(1) b(1) by (simp add: length_cyclic_draw)
  have len2: "int (length (cyclic_draw (d - ?ic) (correctCards s))) = d - ?ic"
    using assms(2) b(2) by (simp add: length_cyclic_draw)
  have "cyclic_draw (d - int (length (cyclic_draw ?ic (incorrectCards s)
          @ cyclic_draw (d - ?ic) (correctCards s)))) (cards s) = []"
    using len1 len2 by (simp add: cyclic_draw_nonpos)
  then show ?thesis
    by (simp add: additionalCards_draws [of s d])
qed

text \<open>A batch with the multiset of the two quotas satisfies the specification's rule.\<close>

lemma spec_batch_both_nonempty:
  assumes "incorrectCards s \<noteq> []" "correctCards s \<noteq> []" "0 \<le> d"
      and "mset batch = mset (additionalCards s d)"
  shows "spec_batch d (card_id ` set (incorrectCards s)) (card_id ` set (correctCards s))
           (map card_id batch)"
proof -
  let ?ic = "\<lceil>of_int (d * 3) / (4 :: real)\<rceil>"
  let ?xs = "cyclic_draw ?ic (incorrectCards s)"
  let ?ys = "cyclic_draw (d - ?ic) (correctCards s)"
  note b = ceiling_three_quarters [OF assms(3)]
  have ic: "\<lceil>of_int d * 3 / (4 :: real)\<rceil> = ?ic" by simp
  have "mset (map card_id batch) = image_mset card_id (mset batch)" by simp
  also have "\<dots> = image_mset card_id (mset (?xs @ ?ys))"
    by (simp only: assms(4) additionalCards_both_nonempty [OF assms(1-3)])
  finally have split: "mset (map card_id batch) = mset (map card_id ?xs) + mset (map card_id ?ys)"
    by simp
  have l1: "int (length (map card_id ?xs)) = \<lceil>of_int d * 3 / (4 :: real)\<rceil>"
    using assms(1) b(1) by (simp add: length_cyclic_draw)
  have l2: "int (length (map card_id ?ys)) = d - \<lceil>of_int d * 3 / (4 :: real)\<rceil>"
    using assms(2) b(2) by (simp add: length_cyclic_draw)
  have m1: "set (map card_id ?xs) \<subseteq> card_id ` set (incorrectCards s)"
    using set_cyclic_draw [of ?ic "incorrectCards s"] by auto
  have m2: "set (map card_id ?ys) \<subseteq> card_id ` set (correctCards s)"
    using set_cyclic_draw [of "d - ?ic" "correctCards s"] by auto
  from split l1 l2 m1 m2 show ?thesis
    unfolding spec_batch_def by blast
qed

text \<open>
  When no card was answered wrongly and every card of the set was answered correctly,
  the batch has the size of the deficit and holds correctly answered cards only: the
  quota of the correct cards comes from \<open>correctCards\<close>, the rest from the set.
\<close>

lemma additionalCards_none_incorrect:
  assumes "incorrectCards s = []" "cards s \<noteq> []" "0 \<le> d"
      and "card_id ` set (cards s) \<subseteq> card_id ` set (correctCards s)"
  shows "length (additionalCards s d) = nat d"
    and "card_id ` set (additionalCards s d) \<subseteq> card_id ` set (correctCards s)"
proof -
  let ?ic = "\<lceil>of_int (d * 3) / (4 :: real)\<rceil>"
  let ?ys = "cyclic_draw (d - ?ic) (correctCards s)"
  note b = ceiling_three_quarters [OF assms(3)]
  from assms(2,4) have ne: "correctCards s \<noteq> []" by auto
  have len2: "int (length ?ys) = d - ?ic"
    using ne b(2) by (simp add: length_cyclic_draw)
  have eq: "additionalCards s d = ?ys @ cyclic_draw ?ic (cards s)"
    using len2 by (simp add: additionalCards_draws [of s d] assms(1) cyclic_draw_def)
  have l2: "length ?ys = nat (d - ?ic)"
    using ne by (simp only: length_cyclic_draw if_False)
  have l3: "length (cyclic_draw ?ic (cards s)) = nat ?ic"
    using assms(2) by (simp only: length_cyclic_draw if_False)
  have sum: "nat (d - ?ic) + nat ?ic = nat d"
    using b by linarith
  show "length (additionalCards s d) = nat d"
    by (simp only: eq length_append l2 l3 sum)
  have "set (additionalCards s d) \<subseteq> set (correctCards s) \<union> set (cards s)"
    using set_cyclic_draw [of "d - ?ic" "correctCards s"] set_cyclic_draw [of ?ic "cards s"]
    by (auto simp: eq)
  with assms(4) show "card_id ` set (additionalCards s d) \<subseteq> card_id ` set (correctCards s)"
    by blast
qed

lemma nextTestQuestion_replenish:
  assumes "\<not> currentIndex s < int (length (testCards s)) - 1"
      and "int (length (testCards s)) < js_or (testTargetCount s) (int (length (testCards s)))"
  shows "testCards (nextTestQuestion rnd s) =
     testCards s @ selectAdditionalCards rnd s
        (js_or (testTargetCount s) (int (length (testCards s))) - int (length (testCards s)))"
  using assms by (simp add: nextTestQuestion_def Let_def)

text \<open>
  Claim C6, as stated, fails when every card was answered wrongly: three cards, seven
  questions, the three answered wrongly in the order 2, 3, 1. The deficit is \<open>4\<close>; the
  rule wants \<open>ceil(4 * 3/4) = 3\<close> items from \<open>answeredIncorrectly\<close> and the remaining
  one from \<open>answeredCorrectly\<close>, which is empty. The code's batch holds four items:
  the cards 2, 3, 1 and, from the whole set, card 1 again.
\<close>

theorem all_wrong_counterexample:
  "map card_id (incorrectCards scenario_all_wrong) = [2, 3, 1]
   \<and> correctCards scenario_all_wrong = []
   \<and> js_or (testTargetCount scenario_all_wrong) (int (length (testCards scenario_all_wrong)))
        - int (length (testCards scenario_all_wrong)) = 4
   \<and> map card_id (additionalCards scenario_all_wrong 4) = [2, 3, 1, 1]
   \<and> map card_id (testCards (nextTestQuestion random_zero scenario_all_wrong))
        = [2, 3, 1] @ map card_id (selectAdditionalCards random_zero scenario_all_wrong 4)
   \<and> length (selectAdditionalCards random_zero scenario_all_wrong 4) = 4
   \<and> \<not> spec_batch 4 (card_id ` set (incorrectCards scenario_all_wrong))
          (card_id ` set (correctCards scenario_all_wrong))
          (map card_id (selectAdditionalCards random_zero scenario_all_wrong 4))"
proof -
  have a: "map card_id (incorrectCards scenario_all_wrong) = [2, 3, 1]" by code_simp
  have b: "correctCards scenario_all_wrong = []" by code_simp
  have c: "js_or (testTargetCount scenario_all_wrong) (int (length (testCards scenario_all_wrong)))
        - int (length (testCards scenario_all_wrong)) = 4" by code_simp
  have d: "map card_id (additionalCards scenario_all_wrong 4) = [2, 3, 1, 1]" by code_simp
  have e: "map card_id (testCards (nextTestQuestion random_zero scenario_all_wrong))
        = [2, 3, 1] @ map card_id (selectAdditionalCards random_zero scenario_all_wrong 4)"
    by code_simp
  have f: "length (selectAdditionalCards random_zero scenario_all_wrong 4) = 4" by code_simp
  have g: "\<not> spec_batch 4 {} (card_id ` set (correctCards scenario_all_wrong)) batch"
    for batch :: "int list"
    by (simp add: spec_batch_def b)
  have h: "\<not> spec_batch 4 A {} batch" for A :: "int set" and batch :: "int list"
    by (simp add: spec_batch_def)
  from a b c d e f h show ?thesis by simp
qed

text \<open>
  Claim C6, amended: when \<open>Math.random\<close> returns values in \<open>[0, 1)\<close>, the batch
  drawn for a deficit \<open>d\<close> is a shuffle of three draws: \<open>ceil(d * 3/4)\<close> items
  cyclically from \<open>incorrectCards\<close> (none when that list is empty), then
  \<open>d - ceil(d * 3/4)\<close> items cyclically from \<open>correctCards\<close> (none when that list
  is empty), then as many items as are still missing cyclically from the whole set of
  cards. When both lists are non-empty and \<open>d \<ge> 0\<close>, the third draw is empty and the
  batch follows the specification's rule. When no card was answered wrongly and every
  card of the set was answered correctly, as in Scenario D, all \<open>d\<close> replenished items
  are members of \<open>correctCards\<close>. When the working set is exhausted and shorter than
  the target \<open>T\<close>, \<open>nextTestQuestion\<close> appends the batch for
  \<open>d = T - length testCards\<close>.
\<close>

theorem replenishment_batch:
  assumes "\<forall>k. 0 \<le> rnd k \<and> rnd k < 1"
  shows "mset (selectAdditionalCards rnd s d) =
     mset (cyclic_draw \<lceil>of_int (d * 3) / (4 :: real)\<rceil> (incorrectCards s)
           @ cyclic_draw (d - \<lceil>of_int (d * 3) / (4 :: real)\<rceil>) (correctCards s)
           @ cyclic_draw
               (d - int (length (cyclic_draw \<lceil>of_int (d * 3) / (4 :: real)\<rceil> (incorrectCards s)
                                 @ cyclic_draw (d - \<lceil>of_int (d * 3) / (4 :: real)\<rceil>) (correctCards s))))
               (cards s))
   \<and> (incorrectCards s \<noteq> [] \<and> correctCards s \<noteq> [] \<and> 0 \<le> d \<longrightarrow>
        mset (selectAdditionalCards rnd s d)
          = mset (cyclic_draw \<lceil>of_int (d * 3) / (4 :: real)\<rceil> (incorrectCards s)
                  @ cyclic_draw (d - \<lceil>of_int (d * 3) / (4 :: real)\<rceil>) (correctCards s))
        \<and> spec_batch d (card_id ` set (incorrectCards s)) (card_id ` set (correctCards s))
             (map card_id (selectAdditionalCards rnd s d)))
   \<and> (incorrectCards s = [] \<and> cards s \<noteq> [] \<and> 0 \<le> d
        \<and> card_id ` set (cards s) \<subseteq> card_id ` set (correctCards s) \<longrightarrow>
        length (selectAdditionalCards rnd s d) = nat d
        \<and> card_id ` set (selectAdditionalCards rnd s d) \<subseteq> card_id ` set (correctCards s))
   \<and> (\<not> currentIndex s < int (length (testCards s)) - 1
        \<and> int (length (testCards s)) < js_or (testTargetCount s) (int (length (testCards s))) \<longrightarrow>
        testCards (nextTestQuestion rnd s) =
          testCards s @ selectAdditionalCards rnd s
            (js_or (testTargetCount s) (int (length (testCards s))) - int (length (testCards s))))"
proof -
  have sh: "mset (selectAdditionalCards rnd s d) = mset (additionalCards s d)"
    by (simp add: selectAdditionalCards_def shuffleArray_perm(1) [OF assms])
  then have st: "set (selectAdditionalCards rnd s d) = set (additionalCards s d)"
    by (rule mset_eq_setD)
  have ln: "length (selectAdditionalCards rnd s d) = length (additionalCards s d)"
    by (simp add: selectAdditionalCards_def shuffleArray_perm(2) [OF assms])
  have g1: "mset (selectAdditionalCards rnd s d) =
     mset (cyclic_draw \<lceil>of_int (d * 3) / (4 :: real)\<rceil> (incorrectCards s)
           @ cyclic_draw (d - \<lceil>of_int (d * 3) / (4 :: real)\<rceil>) (correctCards s)
           @ cyclic_draw
               (d - int (length (cyclic_draw \<lceil>of_int (d * 3) / (4 :: real)\<rceil> (incorrectCards s)
                                 @ cyclic_draw (d - \<lceil>of_int (d * 3) / (4 :: real)\<rceil>) (correctCards s))))
               (cards s))"
    by (simp only: sh additionalCards_draws [of s d])
  have g2: "incorrectCards s \<noteq> [] \<and> correctCards s \<noteq> [] \<and> 0 \<le> d \<longrightarrow>
        mset (selectAdditionalCards rnd s d)
          = mset (cyclic_draw \<lceil>of_int (d * 3) / (4 :: real)\<rceil> (incorrectCards s)
                  @ cyclic_draw (d - \<lceil>of_int (d * 3) / (4 :: real)\<rceil>) (correctCards s))
        \<and> spec_batch d (card_id ` set (incorrectCards s)) (card_id ` set (correctCards s))
             (map card_id (selectAdditionalCards rnd s d))"
    using sh spec_batch_both_nonempty [of s d "selectAdditionalCards rnd s d"]
      additionalCards_both_nonempty [of s d]
    by simp
  have g3: "incorrectCards s = [] \<and> cards s \<noteq> [] \<and> 0 \<le> d
        \<and> card_id ` set (cards s) \<subseteq> card_id ` set (correctCards s) \<longrightarrow>
        length (selectAdditionalCards rnd s d) = nat d
        \<and> card_id ` set (selectAdditionalCards rnd s d) \<subseteq> card_id ` set (correctCards s)"
    using additionalCards_none_incorrect [of s d] by (simp add: st ln)
  have g4: "\<not> currentIndex s < int (length (testCards s)) - 1
        \<and> int (length (testCards s)) < js_or (testTargetCount s) (int (length (testCards s))) \<longrightarrow>
        testCards (nextTestQuestion rnd s) =
          testCards s @ selectAdditionalCards rnd s
            (js_or (testTargetCount s) (int (length (testCards s))) - int (length (testCards s)))"
    using nextTestQuestion_replenish [of s rnd] by blast
  from g1 g2 g3 g4 show ?thesis by blast
qed

text \<open>
  Scenario D (no wrong answer, every card answered correctly, deficit 2, working set
  exhausted) and the same session with the first answer wrong (both lists non-empty),
  every random value being \<open>0\<close>.
\<close>

theorem replenishment_batch_witness:
  "(\<forall>k. 0 \<le> random_zero k \<and> random_zero k < 1)
   \<and> incorrectCards scenario_D = [] \<and> cards scenario_D \<noteq> [] \<and> (0::int) \<le> 2
   \<and> card_id ` set (cards scenario_D) \<subseteq> card_id ` set (correctCards scenario_D)
   \<and> length (selectAdditionalCards random_zero scenario_D 2) = nat 2
   \<and> card_id ` set (selectAdditionalCards random_zero scenario_D 2)
        \<subseteq> card_id ` set (correctCards scenario_D)
   \<and> \<not> currentIndex scenario_D < int (length (testCards scenario_D)) - 1
   \<and> int (length (testCards scenario_D))
       < js_or (testTargetCount scenario_D) (int (length (testCards scenario_D)))
   \<and> testCards (nextTestQuestion random_zero scenario_D) =
       testCards scenario_D @ selectAdditionalCards random_zero scenario_D
         (js_or (testTargetCount scenario_D) (int (length (testCards scenario_D)))
            - int (length (testCards scenario_D)))
   \<and> incorrectCards scenario_mixed \<noteq> [] \<and> correctCards scenario_mixed \<noteq> []
   \<and> spec_batch 2 (card_id ` set (incorrectCards scenario_mixed))
        (card_id ` set (correctCards scenario_mixed))
        (map card_id (selectAdditionalCards random_zero scenario_mixed 2))"
proof -
  have r: "\<forall>k. 0 \<le> random_zero k \<and> random_zero k < 1" by (simp add: random_zero_def)
  have a: "incorrectCards scenario_D = []" by code_simp
  have a2: "cards scenario_D \<noteq> []" by code_simp
  have a3: "card_id ` set (cards scenario_D) \<subseteq> card_id ` set (correctCards scenario_D)"
  proof -
    have "map card_id (cards scenario_D) = [1, 2, 3]" by code_simp
    moreover have "map card_id (correctCards scenario_D) = [2, 3, 1]" by code_simp
    ultimately have "set (map card_id (cards scenario_D)) \<subseteq> set (map card_id (correctCards scenario_D))"
      by simp
    then show ?thesis by simp
  qed
  have b: "\<not> currentIndex scenario_D < int (length (testCards scenario_D)) - 1" by code_simp
  have c: "int (length (testCards scenario_D))
       < js_or (testTargetCount scenario_D) (int (length (testCards scenario_D)))" by code_simp
  have d: "incorrectCards scenario_mixed \<noteq> []" by code_simp
  have e: "correctCards scenario_mixed \<noteq> []" by code_simp
  have two: "(0::int) \<le> 2" by simp
  from replenishment_batch [OF r, of scenario_D 2] a a2 a3 two b c
  have D: "length (selectAdditionalCards random_zero scenario_D 2) = nat 2
     \<and> card_id ` set (selectAdditionalCards random_zero scenario_D 2)
        \<subseteq> card_id ` set (correctCards scenario_D)
     \<and> testCards (nextTestQuestion random_zero scenario_D) =
       testCards scenario_D @ selectAdditionalCards random_zero scenario_D
         (js_or (testTargetCount scenario_D) (int (length (testCards scenario_D)))
            - int (length (testCards scenario_D)))"
    by blast
  from replenishment_batch [OF r, of scenario_mixed 2] d e two
  have M: "spec_batch 2 (card_id ` set (incorrectCards scenario_mixed))
        (card_id ` set (correctCards scenario_mixed))
        (map card_id (selectAdditionalCards random_zero scenario_mixed 2))"
    by blast
  from r a a2 a3 two b c d e D M show ?thesis by blast
qed

end
